theory Spec2Isabelle
  imports Main
begin

section \<open>Wire values\<close>

text \<open>
  The server of \<^verbatim>\<open>src/server.py\<close> exchanges newline-terminated JSON records.  A decoded
  record is a value of type \<open>json\<close>; Python's \<^verbatim>\<open>None\<close> is \<open>JNull\<close>, a \<^verbatim>\<open>dict\<close> is an
  association list read with \<open>map_of\<close>.  Numbers are integers here: the server never looks
  inside a number, it only compares strings and looks keys up.

  \<^verbatim>\<open>json.loads\<close> belongs to the Python library, so every function that decodes takes the
  decoder as its first argument \<open>loads\<close>; \<open>None\<close> stands for \<^verbatim>\<open>JSONDecodeError\<close>.
  An outgoing record is kept as the value handed to \<^verbatim>\<open>json.dumps\<close>; on the wire it is
  that text followed by a newline.
\<close>

datatype json =
    JNull
  | JBool bool
  | JNum int
  | JStr string
  | JArr "json list"
  | JObj "(string \<times> json) list"

text \<open>\<^verbatim>\<open>d.get(k)\<close>: the value, or \<^verbatim>\<open>None\<close> when the key is missing.\<close>

definition py_get :: "(string \<times> json) list \<Rightarrow> string \<Rightarrow> json" where
  "py_get d k = (case map_of d k of None \<Rightarrow> JNull | Some v \<Rightarrow> v)"

text \<open>Python truthiness, as used by \<^verbatim>\<open>if not username\<close>.\<close>

fun truthy :: "json \<Rightarrow> bool" where
  "truthy JNull = False"
| "truthy (JBool b) = b"
| "truthy (JNum n) = (n \<noteq> 0)"
| "truthy (JStr s) = (s \<noteq> [])"
| "truthy (JArr xs) = (xs \<noteq> [])"
| "truthy (JObj d) = (d \<noteq> [])"

text \<open>
  \<^verbatim>\<open>str.strip()\<close> removes leading and trailing whitespace; below code point 256 Python's
  whitespace characters are 9 to 13, 28 to 32, 133 and 160.
\<close>

definition isspace :: "char \<Rightarrow> bool" where
  "isspace c = ((of_char c :: nat) \<in> {9, 10, 11, 12, 13, 28, 29, 30, 31, 32, 133, 160})"

definition py_strip :: "string \<Rightarrow> string" where
  "py_strip s = rev (dropWhile isspace (rev (dropWhile isspace s)))"

text \<open>
  \<^verbatim>\<open>datetime.now().strftime("%H:%M")\<close>: a clock reading is a number of minutes; the hour
  and the minute are printed with two digits each.
\<close>

definition two_digits :: "nat \<Rightarrow> string" where
  "two_digits n = [''0123456789'' ! (n div 10 mod 10), ''0123456789'' ! (n mod 10)]"

definition strftime_HM :: "nat \<Rightarrow> string" where
  "strftime_HM t = two_digits (t div 60 mod 24) @ '':'' @ two_digits (t mod 60)"

section \<open>Server state\<close>

text \<open>
  A socket is identified by a number.  \<open>users\<close> is the table of the SQLite database (the
  rows as (username, password), in insertion order), \<open>active_clients\<close> is the list of
  (username, socket) pairs of \<^verbatim>\<open>ChatServer\<close>.  The environment is part of the state:
  \<open>broken\<close> lists the sockets on which \<^verbatim>\<open>sendall\<close> raises (no function of the server
  changes it: a peer does not come or go while one call runs), \<open>clock\<close> gives the
  successive readings of the wall clock and \<open>reads\<close> counts the readings made so far.
  \<open>trace\<close> records, oldest first, what the server did to the sockets.  One call of a
  function below is one thread running alone from its start to its end.
\<close>

type_synonym sock = nat

datatype event =
    Sent sock json
  | Failed sock json
  | Closed sock

record server =
  users :: "(string \<times> string) list"
  active_clients :: "(json \<times> sock) list"
  broken :: "sock list"
  clock :: "nat \<Rightarrow> nat"
  reads :: nat
  trace :: "event list"

text \<open>
  The exceptions that can leave a function of the server.  \<open>Unmodelled\<close> marks the one
  place where the model stops short of the code: a boolean given as a credential.
  Python binds it as the integer 0 or 1, and as a registry key it would compare equal to
  that integer, an equality that the values of type \<open>json\<close> do not have.
\<close>

datatype exn =
  AttributeError | KeyError | OSError | BindingError | OverflowError | Unmodelled

text \<open>The result of one \<^verbatim>\<open>sock.recv(2048).decode()\<close>: the text read, or an exception.\<close>

datatype recv = Data string | RecvError

definition log :: "event \<Rightarrow> server \<Rightarrow> server" where
  "log e st = st\<lparr>trace := trace st @ [e]\<rparr>"

text \<open>\<^verbatim>\<open>sock.sendall(...)\<close>: whether it returned, and the state with the attempt recorded.\<close>

definition sendall :: "sock \<Rightarrow> json \<Rightarrow> server \<Rightarrow> bool \<times> server" where
  "sendall sock msg st =
     (if sock \<in> set (broken st) then (False, log (Failed sock msg) st)
      else (True, log (Sent sock msg) st))"

section \<open>The credential store\<close>

text \<open>The decimal text of an integer, as SQLite converts an INTEGER to TEXT.\<close>

fun show_nat :: "nat \<Rightarrow> string" where
  "show_nat n =
     (if n < 10 then [''0123456789'' ! n]
      else show_nat (n div 10) @ [''0123456789'' ! (n mod 10)])"

definition show_int :: "int \<Rightarrow> string" where
  "show_int i = (if i < 0 then CHR ''-'' # show_nat (nat (- i)) else show_nat (nat i))"

text \<open>
  The table is \<^verbatim>\<open>users(id, username TEXT UNIQUE NOT NULL, password TEXT NOT NULL)\<close>.
  \<open>sql_param\<close> is the binding of a Python value to a parameter of a statement on these
  two columns, as the column sees it: \<^verbatim>\<open>None\<close> becomes NULL (\<open>None\<close>), a string becomes a
  TEXT value, an integer that fits 64 bits is bound as an INTEGER and takes the TEXT
  affinity of the column (it is stored, and compared, as its decimal text), a larger one
  raises \<^verbatim>\<open>OverflowError\<close>, a list or a dict cannot be bound.
\<close>

definition sql_param :: "json \<Rightarrow> exn + string option" where
  "sql_param v =
     (case v of
        JNull \<Rightarrow> Inr None
      | JStr s \<Rightarrow> Inr (Some s)
      | JArr xs \<Rightarrow> Inl BindingError
      | JObj d \<Rightarrow> Inl BindingError
      | JBool b \<Rightarrow> Inl Unmodelled
      | JNum n \<Rightarrow>
          if - (2 ^ 63) \<le> n \<and> n < 2 ^ 63 then Inr (Some (show_int n))
          else Inl OverflowError)"

text \<open>
  \<^verbatim>\<open>Database.register_user\<close>: the INSERT violates a constraint, and the function returns
  \<^verbatim>\<open>False\<close>, when a value is NULL or the username is already in the table.
\<close>

definition register_user :: "json \<Rightarrow> json \<Rightarrow> server \<Rightarrow> exn + bool \<times> server" where
  "register_user username password st =
     (case sql_param username of
        Inl e \<Rightarrow> Inl e
      | Inr un \<Rightarrow>
          (case sql_param password of
             Inl e \<Rightarrow> Inl e
           | Inr pw \<Rightarrow>
               (case (un, pw) of
                  (Some u, Some p) \<Rightarrow>
                    if u \<in> fst ` set (users st) then Inr (False, st)
                    else Inr (True, st\<lparr>users := users st @ [(u, p)]\<rparr>)
                | _ \<Rightarrow> Inr (False, st))))"

text \<open>
  \<^verbatim>\<open>Database.validate_user\<close>: is there a row with this username and this password?
  A comparison with NULL selects no row.
\<close>

definition validate_user :: "json \<Rightarrow> json \<Rightarrow> server \<Rightarrow> exn + bool" where
  "validate_user username password st =
     (case sql_param username of
        Inl e \<Rightarrow> Inl e
      | Inr un \<Rightarrow>
          (case sql_param password of
             Inl e \<Rightarrow> Inl e
           | Inr pw \<Rightarrow>
               (case (un, pw) of
                  (Some u, Some p) \<Rightarrow> Inr ((u, p) \<in> set (users st))
                | _ \<Rightarrow> Inr False)))"

text \<open>\<^verbatim>\<open>Database.add_default_users\<close>: INSERT OR IGNORE of the two default accounts.\<close>

definition add_default_users :: "server \<Rightarrow> server" where
  "add_default_users st =
     foldl (\<lambda>s (u, p). if u \<in> fst ` set (users s) then s else s\<lparr>users := users s @ [(u, p)]\<rparr>)
       st [(''yosif'', ''1010''), (''mohamed'', ''1010'')]"

text \<open>The server right after \<^verbatim>\<open>ChatServer.__init__\<close> on a new database file.\<close>

definition initial_server :: server where
  "initial_server =
     add_default_users
       \<lparr>users = [], active_clients = [], broken = [], clock = (\<lambda>n. 0), reads = 0, trace = []\<rparr>"

section \<open>Broadcasting\<close>

text \<open>The payload built by \<^verbatim>\<open>broadcast_user_list\<close>.\<close>

definition user_list_msg :: "server \<Rightarrow> json" where
  "user_list_msg st =
     JObj [(''type'', JStr ''user_list''), (''content'', JArr (map fst (active_clients st)))]"

text \<open>The assignment in \<^verbatim>\<open>remove_client\<close>: keep the entries of the other usernames.\<close>

definition deregister :: "json \<Rightarrow> server \<Rightarrow> server" where
  "deregister username st =
     st\<lparr>active_clients := [(u, s) \<leftarrow> active_clients st. u \<noteq> username]\<rparr>"

text \<open>
  \<^verbatim>\<open>broadcast_message\<close> and \<^verbatim>\<open>broadcast_user_list\<close> run the same loop over a copy of the
  list:
  \<^verbatim>\<open>for u, sock in list(self.active_clients): try: sock.sendall(msg) except: self.remove_client(u)\<close>.
  \<open>send_loop msg snapshot st\<close> is that loop.  In the failing branch the argument of the
  recursive call is \<^verbatim>\<open>remove_client(u)\<close> written out: the entries of \<open>u\<close> are dropped and
  the user list of the new registry is broadcast, by the same loop, before the outer loop
  goes on with the rest of its own copy.
\<close>

function (domintros) send_loop :: "json \<Rightarrow> (json \<times> sock) list \<Rightarrow> server \<Rightarrow> server" where
  "send_loop msg [] st = st"
| "send_loop msg ((u, sock) # rest) st =
     (if sock \<in> set (broken st)
      then send_loop msg rest
             (send_loop (user_list_msg (deregister u (log (Failed sock msg) st)))
                        (active_clients (deregister u (log (Failed sock msg) st)))
                        (deregister u (log (Failed sock msg) st)))
      else send_loop msg rest (log (Sent sock msg) st))"
  by pat_completeness auto

definition broadcast_user_list :: "server \<Rightarrow> server" where
  "broadcast_user_list st = send_loop (user_list_msg st) (active_clients st) st"

definition remove_client :: "json \<Rightarrow> server \<Rightarrow> server" where
  "remove_client username st = broadcast_user_list (deregister username st)"

definition broadcast_message :: "json \<Rightarrow> server \<Rightarrow> server" where
  "broadcast_message message st = send_loop message (active_clients st) st"

section \<open>The handshake\<close>

definition success_msg :: json where
  "success_msg = JObj [(''status'', JStr ''success'')]"

definition error_msg :: "string \<Rightarrow> json" where
  "error_msg text = JObj [(''status'', JStr ''error''), (''message'', JStr text)]"

text \<open>
  \<open>reply sock msg result st\<close>: send the response, then return \<open>result\<close>.  The handshake
  does not catch a failing \<^verbatim>\<open>sendall\<close>.
\<close>

definition reply :: "sock \<Rightarrow> json \<Rightarrow> json \<Rightarrow> server \<Rightarrow> (exn + json) \<times> server" where
  "reply sock msg result st =
     (case sendall sock msg st of
        (True, st') \<Rightarrow> (Inr result, st')
      | (False, st') \<Rightarrow> (Inl OSError, st'))"

text \<open>
  \<^verbatim>\<open>ChatServer.handle_auth\<close>.  The result is the returned value (\<open>JNull\<close> for
  \<^verbatim>\<open>None\<close>) or the exception that left the function, with the new state.
\<close>

definition handle_auth ::
  "(string \<Rightarrow> json option) \<Rightarrow> sock \<Rightarrow> recv \<Rightarrow> server \<Rightarrow> (exn + json) \<times> server" where
  "handle_auth loads sock r st =
     (case r of
        RecvError \<Rightarrow> (Inl OSError, st)
      | Data raw \<Rightarrow>
          if raw = [] then (Inr JNull, st)
          else
            (case loads (py_strip raw) of
               None \<Rightarrow> reply sock (error_msg ''Invalid JSON'') JNull st
             | Some creds \<Rightarrow>
                 (case creds of
                    JObj d \<Rightarrow>
                      (let action = py_get d ''action'';
                           user = py_get d ''username'';
                           pwd = py_get d ''password''
                       in if action = JStr ''register'' then
                            (case register_user user pwd st of
                               Inl e \<Rightarrow> (Inl e, st)
                             | Inr (ok, st1) \<Rightarrow>
                                 reply sock
                                   (if ok then success_msg
                                    else error_msg ''Username already exists'')
                                   JNull st1)
                          else if action = JStr ''login'' then
                            (case validate_user user pwd st of
                               Inl e \<Rightarrow> (Inl e, st)
                             | Inr ok \<Rightarrow>
                                 if ok then reply sock success_msg user st
                                 else reply sock (error_msg ''Invalid credentials'') JNull st)
                          else reply sock (error_msg ''Unknown action'') JNull st)
                  | _ \<Rightarrow> (Inl AttributeError, st))))"

text \<open>
  \<^verbatim>\<open>ChatServer.client_handler\<close>, up to the start of the listening thread.  An exception
  out of \<^verbatim>\<open>handle_auth\<close> ends the thread where it is: nothing is closed or registered.
\<close>

definition client_handler ::
  "(string \<Rightarrow> json option) \<Rightarrow> sock \<Rightarrow> recv \<Rightarrow> server \<Rightarrow> server" where
  "client_handler loads client_sock r st =
     (case handle_auth loads client_sock r st of
        (Inl e, st1) \<Rightarrow> st1
      | (Inr username, st1) \<Rightarrow>
          if \<not> truthy username then log (Closed client_sock) st1
          else broadcast_user_list
                 (st1\<lparr>active_clients := active_clients st1 @ [(username, client_sock)]\<rparr>))"

section \<open>The message loop\<close>

text \<open>
  Reading the clock: \<open>strftime_now\<close> is the text of the reading, \<open>tick\<close> the state after it.
\<close>

definition strftime_now :: "server \<Rightarrow> string" where
  "strftime_now st = strftime_HM (clock st (reads st))"

definition tick :: "server \<Rightarrow> server" where
  "tick st = st\<lparr>reads := Suc (reads st)\<rparr>"

text \<open>The record built for a chat message.\<close>

definition chat_msg :: "json \<Rightarrow> json \<Rightarrow> string \<Rightarrow> json" where
  "chat_msg username content time =
     JObj [(''type'', JStr ''message''), (''sender'', username),
           (''content'', content), (''time'', JStr time)]"

text \<open>
  What \<^verbatim>\<open>listen_for_messages\<close> does with one decoded line \<open>pkt\<close>: \<^verbatim>\<open>pkt.get\<close> raises
  on anything but a dict, \<^verbatim>\<open>pkt["content"]\<close> raises on a missing key.
\<close>

definition handle_packet :: "json \<Rightarrow> json \<Rightarrow> server \<Rightarrow> exn option \<times> server" where
  "handle_packet username pkt st =
     (case pkt of
        JObj d \<Rightarrow>
          if py_get d ''type'' = JStr ''message'' then
            (case map_of d ''content'' of
               None \<Rightarrow> (Some KeyError, st)
             | Some content \<Rightarrow>
                 (None,
                  broadcast_message (chat_msg username content (strftime_now st)) (tick st)))
          else (None, st)
      | _ \<Rightarrow> (Some AttributeError, st))"

text \<open>\<^verbatim>\<open>buffer.split("\n", 1)\<close>, when the buffer holds a newline.\<close>

definition split_line :: "string \<Rightarrow> (string \<times> string) option" where
  "split_line buffer =
     (if CHR 0x0A \<in> set buffer
      then Some (takeWhile (\<lambda>c. c \<noteq> CHR 0x0A) buffer, tl (dropWhile (\<lambda>c. c \<noteq> CHR 0x0A) buffer))
      else None)"

text \<open>
  The inner loop \<^verbatim>\<open>while "\n" in buffer\<close>.  The result is the exception that left the
  loop, if any, the buffer and the state.
\<close>

function process_buffer ::
  "(string \<Rightarrow> json option) \<Rightarrow> json \<Rightarrow> string \<Rightarrow> server \<Rightarrow> exn option \<times> string \<times> server" where
  "process_buffer loads username buffer st =
     (case split_line buffer of
        None \<Rightarrow> (None, buffer, st)
      | Some (line, buffer') \<Rightarrow>
          if py_strip line = [] then process_buffer loads username buffer' st
          else
            (case loads line of
               None \<Rightarrow> process_buffer loads username buffer' st
             | Some pkt \<Rightarrow>
                 (case handle_packet username pkt st of
                    (Some e, st') \<Rightarrow> (Some e, buffer', st')
                  | (None, st') \<Rightarrow> process_buffer loads username buffer' st')))"
  by pat_completeness auto

text \<open>
  The outer loop \<^verbatim>\<open>while True\<close> of \<^verbatim>\<open>listen_for_messages\<close>, run on the successive results
  of \<^verbatim>\<open>recv\<close>.  Any exception, an empty read included, goes to the bare \<^verbatim>\<open>except\<close>, which
  calls \<^verbatim>\<open>remove_client\<close> and leaves the loop.  \<open>Listening buffer\<close> is a thread that waits
  for the next read, \<open>Stopped\<close> one that has left the loop.
\<close>

datatype listener = Listening string | Stopped

fun listen_loop ::
  "(string \<Rightarrow> json option) \<Rightarrow> json \<Rightarrow> string \<Rightarrow> recv list \<Rightarrow> server \<Rightarrow> listener \<times> server" where
  "listen_loop loads username buffer [] st = (Listening buffer, st)"
| "listen_loop loads username buffer (r # rs) st =
     (case r of
        RecvError \<Rightarrow> (Stopped, remove_client username st)
      | Data data \<Rightarrow>
          if data = [] then (Stopped, remove_client username st)
          else
            (case process_buffer loads username (buffer @ data) st of
               (Some e, b, st') \<Rightarrow> (Stopped, remove_client username st')
             | (None, b, st') \<Rightarrow> listen_loop loads username b rs st'))"

definition listen_for_messages ::
  "(string \<Rightarrow> json option) \<Rightarrow> sock \<Rightarrow> json \<Rightarrow> recv list \<Rightarrow> server \<Rightarrow> listener \<times> server" where
  "listen_for_messages loads sock username inputs st = listen_loop loads username [] inputs st"

section \<open>Measuring a broadcast\<close>

text \<open>
  \<open>failing bk xs\<close>: the usernames that key an entry of \<open>xs\<close> whose socket is in \<open>bk\<close>.
\<close>

definition failing :: "sock list \<Rightarrow> (json \<times> sock) list \<Rightarrow> json set" where
  "failing bk xs = {u. \<exists>s. (u, s) \<in> set xs \<and> s \<in> set bk}"

text \<open>The two counters of the termination order of \<open>send_loop\<close>.\<close>

definition bcount :: "server \<Rightarrow> nat" where
  "bcount st = length [(u, s) \<leftarrow> active_clients st. s \<in> set (broken st)]"

definition ineff :: "(json \<times> sock) list \<Rightarrow> server \<Rightarrow> nat" where
  "ineff snap st =
     length [(u, s) \<leftarrow> snap. s \<in> set (broken st) \<and> u \<notin> failing (broken st) (active_clients st)]"

text \<open>
  \<open>emitted msg snapshot st\<close>: the events that \<open>send_loop msg snapshot st\<close> adds to the trace.
\<close>

definition emitted :: "json \<Rightarrow> (json \<times> sock) list \<Rightarrow> server \<Rightarrow> event list" where
  "emitted msg snap st = drop (length (trace st)) (trace (send_loop msg snap st))"

text \<open>A presence payload is a record of type \<^verbatim>\<open>user_list\<close>.\<close>

fun is_presence :: "json \<Rightarrow> bool" where
  "is_presence (JObj d) = (py_get d ''type'' = JStr ''user_list'')"
| "is_presence v = False"

text \<open>
  Classifying events: a presence payload delivered to socket \<open>c\<close>; a failed write; an
  attempt (delivered or failed) to write the payload \<open>m\<close>; an attempt to write a presence
  payload.
\<close>

fun presence_to :: "sock \<Rightarrow> event \<Rightarrow> bool" where
  "presence_to c (Sent s m) = (s = c \<and> is_presence m)"
| "presence_to c e = False"

fun is_failure :: "event \<Rightarrow> bool" where
  "is_failure (Failed s m) = True"
| "is_failure e = False"

fun about :: "json \<Rightarrow> event \<Rightarrow> bool" where
  "about m (Sent s m') = (m' = m)"
| "about m (Failed s m') = (m' = m)"
| "about m (Closed s) = False"

fun presence_event :: "event \<Rightarrow> bool" where
  "presence_event (Sent s m) = is_presence m"
| "presence_event (Failed s m) = is_presence m"
| "presence_event (Closed s) = False"

text \<open>What one pass of the loop over the entry \<open>e\<close> records for the payload \<open>msg\<close>.\<close>

definition attempt :: "sock list \<Rightarrow> json \<Rightarrow> json \<times> sock \<Rightarrow> event" where
  "attempt bk msg e = (if snd e \<in> set bk then Failed (snd e) msg else Sent (snd e) msg)"

section \<open>Example states\<close>

text \<open>
  Some texts a client can send, and a decoder that agrees with \<^verbatim>\<open>json.loads\<close> on them
  (it rejects every other text, which the examples never use).
\<close>

definition login_ok_text :: string where
  \<open>login_ok_text = ''{"action": "login", "username": "yosif", "password": "1010"}''\<close>

definition login_bad_text :: string where
  \<open>login_bad_text = ''{"action": "login", "username": "yosif", "password": "0000"}''\<close>

definition register_new_text :: string where
  \<open>register_new_text = ''{"action": "register", "username": "alice", "password": "pw1"}''\<close>

definition register_taken_text :: string where
  \<open>register_taken_text = ''{"action": "register", "username": "yosif", "password": "pw1"}''\<close>

definition chat_hi_text :: string where
  \<open>chat_hi_text = ''{"type": "message", "content": "hi"}''\<close>

definition chat_empty_text :: string where
  \<open>chat_empty_text = ''{"type": "message", "content": ""}''\<close>

definition chat_no_content_text :: string where
  \<open>chat_no_content_text = ''{"type": "message"}''\<close>

definition array_text :: string where
  "array_text = ''[]''"

definition credentials :: "string \<Rightarrow> string \<Rightarrow> string \<Rightarrow> json" where
  "credentials action u p =
     JObj [(''action'', JStr action), (''username'', JStr u), (''password'', JStr p)]"

definition sample_loads :: "string \<Rightarrow> json option" where
  "sample_loads text =
     (if text = login_ok_text then Some (credentials ''login'' ''yosif'' ''1010'')
      else if text = login_bad_text then Some (credentials ''login'' ''yosif'' ''0000'')
      else if text = register_new_text then Some (credentials ''register'' ''alice'' ''pw1'')
      else if text = register_taken_text then Some (credentials ''register'' ''yosif'' ''pw1'')
      else if text = chat_hi_text
        then Some (JObj [(''type'', JStr ''message''), (''content'', JStr ''hi'')])
      else if text = chat_empty_text
        then Some (JObj [(''type'', JStr ''message''), (''content'', JStr [])])
      else if text = chat_no_content_text then Some (JObj [(''type'', JStr ''message'')])
      else if text = array_text then Some (JArr [])
      else None)"

text \<open>
  \<open>room clients bk\<close>: the server on a new database with the registry \<open>clients\<close>, where the
  sockets of \<open>bk\<close> have failed.
\<close>

definition room :: "(json \<times> sock) list \<Rightarrow> sock list \<Rightarrow> server" where
  "room clients bk = initial_server\<lparr>active_clients := clients, broken := bk\<rparr>"

section \<open>Termination of the broadcast loop\<close>

text \<open>
  The loop calls itself on the result of a nested call, so its termination rests on what
  the nested call returns.  The facts needed are proved first on the domain of the
  function: the loop never touches \<open>broken\<close>, and it leaves in the registry exactly the
  entries whose username keys no failing socket, provided it met a failing socket at all.
\<close>

lemma failing_code [code]:
  "failing bk xs = fst ` set [(u, s) \<leftarrow> xs. s \<in> set bk]"
  by (force simp: failing_def)

lemma failing_Nil [simp]: "failing bk [] = {}"
  by (simp add: failing_def)

lemma failing_Cons:
  "failing bk ((u, s) # xs) = (if s \<in> set bk then insert u (failing bk xs) else failing bk xs)"
  by (auto simp: failing_def)

lemma failing_filter:
  "failing bk [(v, s) \<leftarrow> xs. v \<notin> G] = failing bk xs - G"
  by (auto simp: failing_def)

lemma failing_filter_neq:
  "failing bk [(v, s) \<leftarrow> xs. v \<noteq> u] = failing bk xs - {u}"
  by (auto simp: failing_def)

lemma filter_failing_idem:
  "failing bk xs = {} \<Longrightarrow> [(v, s) \<leftarrow> xs. s \<in> set bk] = []"
  by (auto simp: failing_def filter_empty_conv)


lemma filter_notin_if:
  "[(v, s) \<leftarrow> xs. v \<notin> (if G = {} then {} else G \<union> G)] = [(v, s) \<leftarrow> xs. v \<notin> G]"
  by (rule filter_cong) auto

lemma send_loop_partial:
  "send_loop_dom (msg, snap, st) \<Longrightarrow>
     broken (send_loop msg snap st) = broken st \<and>
     active_clients (send_loop msg snap st) =
       [(v, s) \<leftarrow> active_clients st.
          v \<notin> (if failing (broken st) snap = {} then {}
                else failing (broken st) snap \<union> failing (broken st) (active_clients st))]"
proof (induction msg snap st rule: send_loop.pinduct)
  case (1 msg st)
  then show ?case by (simp add: send_loop.psimps)
next
  case (2 msg u sock rest st)
  show ?case
  proof (cases "sock \<in> set (broken st)")
    case False
    with 2 show ?thesis
      by (simp add: send_loop.psimps log_def failing_Cons)
  next
    case True
    define st1 where "st1 = deregister u (log (Failed sock msg) st)"
    define st2 where "st2 = send_loop (user_list_msg st1) (active_clients st1) st1"
    define R where "R = active_clients st"
    define bk where "bk = broken st"
    have b1: "broken st1 = bk"
      by (simp add: st1_def bk_def deregister_def log_def)
    have r1: "active_clients st1 = [(v, s) \<leftarrow> R. v \<noteq> u]"
      by (simp add: st1_def R_def deregister_def log_def)
    have "broken st2 = broken st1 \<and>
          active_clients st2 =
            [(v, s) \<leftarrow> active_clients st1.
               v \<notin> (if failing (broken st1) (active_clients st1) = {} then {}
                     else failing (broken st1) (active_clients st1)
                            \<union> failing (broken st1) (active_clients st1))]"
      unfolding st2_def st1_def by (rule 2(2) [OF True])
    then have b2: "broken st2 = bk"
      and r2: "active_clients st2 =
                 [(v, s) \<leftarrow> active_clients st1. v \<notin> failing bk (active_clients st1)]"
      by (simp_all only: b1 filter_notin_if)
    have f2: "failing bk (active_clients st2) = {}"
      unfolding r2 failing_filter by simp
    have "broken (send_loop msg rest st2) = broken st2 \<and>
          active_clients (send_loop msg rest st2) =
            [(v, s) \<leftarrow> active_clients st2.
               v \<notin> (if failing (broken st2) rest = {} then {}
                     else failing (broken st2) rest \<union> failing (broken st2) (active_clients st2))]"
      unfolding st2_def st1_def by (rule 2(3) [OF True])
    then have b3: "broken (send_loop msg rest st2) = bk"
      and r3: "active_clients (send_loop msg rest st2) =
                 [(v, s) \<leftarrow> active_clients st2. v \<notin> failing bk rest]"
      unfolding b2 f2 by (auto intro: filter_cong)
    have eq: "send_loop msg ((u, sock) # rest) st = send_loop msg rest st2"
      using 2(1) True by (simp add: send_loop.psimps st2_def st1_def)
    have "active_clients (send_loop msg rest st2) =
            [(v, s) \<leftarrow> R. v \<notin> insert u (failing bk rest) \<union> failing bk R]"
      unfolding r3 r2 r1 failing_filter_neq filter_filter
      by (rule filter_cong) auto
    with b3 True show ?thesis
      unfolding eq by (simp add: failing_Cons R_def bk_def)
  qed
qed

lemma filter_dead_neq:
  "u \<notin> failing bk xs \<Longrightarrow>
     [(v, s) \<leftarrow> [(v, s) \<leftarrow> xs. v \<noteq> u]. s \<in> set bk] = [(v, s) \<leftarrow> xs. s \<in> set bk]"
  unfolding filter_filter by (rule filter_cong) (auto simp: failing_def)

lemma length_dead_neq:
  assumes "u \<in> failing bk xs"
  shows "length [(v, s) \<leftarrow> [(v, s) \<leftarrow> xs. v \<noteq> u]. s \<in> set bk]
           < length [(v, s) \<leftarrow> xs. s \<in> set bk]"
proof -
  from assms obtain s where m: "(u, s) \<in> set xs" "s \<in> set bk"
    by (auto simp: failing_def)
  let ?dead = "[(v, s) \<leftarrow> xs. s \<in> set bk]"
  have "[(v, s) \<leftarrow> [(v, s) \<leftarrow> xs. v \<noteq> u]. s \<in> set bk] = [(v, s) \<leftarrow> ?dead. v \<noteq> u]"
    unfolding filter_filter by (rule filter_cong) auto
  moreover have "(u, s) \<in> set ?dead" using m by simp
  then have "length [(v, s) \<leftarrow> ?dead. v \<noteq> u] < length ?dead"
    by (rule length_filter_less) simp
  ultimately show ?thesis by simp
qed

termination send_loop
proof (relation "inv_image (less_than <*lex*> less_than <*lex*> less_than)
                   (\<lambda>(msg, snap, st). (bcount st, ineff snap st, length snap))")
  show "wf (inv_image (less_than <*lex*> less_than <*lex*> less_than)
                   (\<lambda>(msg :: json, snap, st). (bcount st, ineff snap st, length snap)))"
    by (intro wf_inv_image wf_lex_prod wf_less_than)
next
  fix msg :: json and u sock rest and st :: server
  assume dead: "sock \<in> set (broken st)"
  let ?st1 = "deregister u (log (Failed sock msg) st)"
  have b1: "broken ?st1 = broken st" by (simp add: deregister_def log_def)
  have r1: "active_clients ?st1 = [(v, s) \<leftarrow> active_clients st. v \<noteq> u]"
    by (simp add: deregister_def log_def)
  show "((user_list_msg ?st1, active_clients ?st1, ?st1), (msg, (u, sock) # rest, st))
          \<in> inv_image (less_than <*lex*> less_than <*lex*> less_than)
               (\<lambda>(msg, snap, st). (bcount st, ineff snap st, length snap))"
  proof (cases "u \<in> failing (broken st) (active_clients st)")
    case True
    then have "bcount ?st1 < bcount st"
      unfolding bcount_def b1 r1 by (rule length_dead_neq)
    then show ?thesis by simp
  next
    case False
    from filter_dead_neq [OF False] have "bcount ?st1 = bcount st"
      unfolding bcount_def b1 r1 by (rule arg_cong)
    moreover have "ineff (active_clients ?st1) ?st1 = 0"
      unfolding ineff_def b1 by (auto simp: filter_empty_conv failing_def)
    moreover have "0 < ineff ((u, sock) # rest) st"
      using False dead by (simp add: ineff_def)
    ultimately show ?thesis by simp
  qed
next
  fix msg :: json and u sock rest and st :: server
  assume dead: "sock \<in> set (broken st)"
  define st1 where "st1 = deregister u (log (Failed sock msg) st)"
  define st2 where "st2 = send_loop (user_list_msg st1) (active_clients st1) st1"
  assume "send_loop_dom (user_list_msg (deregister u (log (Failed sock msg) st)),
            active_clients (deregister u (log (Failed sock msg) st)),
            deregister u (log (Failed sock msg) st))"
  then have "send_loop_dom (user_list_msg st1, active_clients st1, st1)"
    by (simp only: st1_def)
  note p = send_loop_partial [OF this, folded st2_def]
  have b1: "broken st1 = broken st" by (simp add: st1_def deregister_def log_def)
  from p have b2: "broken st2 = broken st"
    and r2: "active_clients st2 =
               [(v, s) \<leftarrow> active_clients st1. v \<notin> failing (broken st) (active_clients st1)]"
    by (simp_all only: b1 filter_notin_if)
  have f2: "failing (broken st) (active_clients st2) = {}"
    unfolding r2 failing_filter by simp
  then have c2: "bcount st2 = 0"
    unfolding bcount_def b2 by (simp add: filter_failing_idem)
  have "((msg, rest, st2), (msg, (u, sock) # rest, st))
          \<in> inv_image (less_than <*lex*> less_than <*lex*> less_than)
               (\<lambda>(msg, snap, st). (bcount st, ineff snap st, length snap))"
  proof (cases "bcount st = 0")
    case False
    with c2 show ?thesis by simp
  next
    case True
    then have "failing (broken st) (active_clients st) = {}"
      by (auto simp: bcount_def failing_def filter_empty_conv)
    then have "ineff ((u, sock) # rest) st = Suc (ineff rest st2)"
      using dead f2 unfolding ineff_def b2 by simp
    with True c2 show ?thesis by simp
  qed
  then show "((msg, rest, send_loop (user_list_msg (deregister u (log (Failed sock msg) st)))
                 (active_clients (deregister u (log (Failed sock msg) st)))
                 (deregister u (log (Failed sock msg) st))), (msg, (u, sock) # rest, st))
          \<in> inv_image (less_than <*lex*> less_than <*lex*> less_than)
               (\<lambda>(msg, snap, st). (bcount st, ineff snap st, length snap))"
    by (simp only: st2_def st1_def)
next
  fix msg :: json and u sock rest and st :: server
  assume "sock \<notin> set (broken st)"
  then show "((msg, rest, log (Sent sock msg) st), (msg, (u, sock) # rest, st))
          \<in> inv_image (less_than <*lex*> less_than <*lex*> less_than)
               (\<lambda>(msg, snap, st). (bcount st, ineff snap st, length snap))"
    by (simp add: bcount_def ineff_def log_def)
qed

text \<open>The inner loop of the listener consumes at least the newline it has found.\<close>

lemma split_line_shorter:
  "split_line buffer = Some (line, buffer') \<Longrightarrow> length buffer' < length buffer"
proof -
  assume a: "split_line buffer = Some (line, buffer')"
  then have nl: "CHR 0x0A \<in> set buffer"
    and b: "buffer' = tl (dropWhile (\<lambda>c. c \<noteq> CHR 0x0A) buffer)"
    by (auto simp: split_line_def split: if_splits)
  from nl have "dropWhile (\<lambda>c. c \<noteq> CHR 0x0A) buffer \<noteq> []"
    by auto
  then have "length buffer' < length (dropWhile (\<lambda>c. c \<noteq> CHR 0x0A) buffer)"
    unfolding b by (cases "dropWhile (\<lambda>c. c \<noteq> CHR 0x0A) buffer") simp_all
  also have "\<dots> \<le> length buffer"
    by (rule length_dropWhile_le)
  finally show ?thesis .
qed

termination process_buffer
  by (relation "measure (\<lambda>(loads, username, buffer, st). length buffer)")
     (auto dest: split_line_shorter)

declare process_buffer.simps [simp del]

section \<open>What a broadcast does\<close>

text \<open>The loop is total, so the facts proved on its domain hold everywhere.\<close>

lemma send_loop_total: "send_loop_dom (msg, snap, st)"
  by (induction msg snap st rule: send_loop.induct) (auto intro: send_loop.domintros)

lemmas send_loop_result = send_loop_partial [OF send_loop_total]

lemma send_loop_broken [simp]: "broken (send_loop msg snap st) = broken st"
  by (simp add: send_loop_result)

lemma send_loop_registry:
  "active_clients (send_loop msg snap st) =
     [(v, s) \<leftarrow> active_clients st.
        v \<notin> (if failing (broken st) snap = {} then {}
              else failing (broken st) snap \<union> failing (broken st) (active_clients st))]"
  by (simp add: send_loop_result)

lemma send_loop_frame:
  "users (send_loop msg snap st) = users st \<and>
   clock (send_loop msg snap st) = clock st \<and>
   reads (send_loop msg snap st) = reads st"
  by (induction msg snap st rule: send_loop.induct)
     (simp_all add: deregister_def log_def)

lemma trace_send_loop_ex: "\<exists>new. trace (send_loop msg snap st) = trace st @ new"
  by (induction msg snap st rule: send_loop.induct)
     (auto simp: deregister_def log_def)

lemma trace_send_loop: "trace (send_loop msg snap st) = trace st @ emitted msg snap st"
  using trace_send_loop_ex [of msg snap st] by (auto simp: emitted_def)

lemma emitted_Nil [simp]: "emitted msg [] st = []"
  by (simp add: emitted_def)

lemma emitted_Cons:
  "emitted msg ((u, sock) # rest) st =
     (if sock \<in> set (broken st)
      then Failed sock msg #
           emitted (user_list_msg (deregister u (log (Failed sock msg) st)))
                   (active_clients (deregister u (log (Failed sock msg) st)))
                   (deregister u (log (Failed sock msg) st)) @
           emitted msg rest
             (send_loop (user_list_msg (deregister u (log (Failed sock msg) st)))
                        (active_clients (deregister u (log (Failed sock msg) st)))
                        (deregister u (log (Failed sock msg) st)))
      else Sent sock msg # emitted msg rest (log (Sent sock msg) st))"
proof -
  have "trace st @ emitted msg ((u, sock) # rest) st = trace st @ (if sock \<in> set (broken st)
      then Failed sock msg #
           emitted (user_list_msg (deregister u (log (Failed sock msg) st)))
                   (active_clients (deregister u (log (Failed sock msg) st)))
                   (deregister u (log (Failed sock msg) st)) @
           emitted msg rest
             (send_loop (user_list_msg (deregister u (log (Failed sock msg) st)))
                        (active_clients (deregister u (log (Failed sock msg) st)))
                        (deregister u (log (Failed sock msg) st)))
      else Sent sock msg # emitted msg rest (log (Sent sock msg) st))"
    unfolding trace_send_loop [symmetric]
    by (simp add: trace_send_loop) (simp add: deregister_def log_def)
  then show ?thesis by (simp only: same_append_eq)
qed


lemma is_presence_user_list [simp]: "is_presence (user_list_msg st)"
  by (simp add: user_list_msg_def py_get_def)

lemma deregister_simps [simp]:
  "broken (deregister u st) = broken st"
  "active_clients (deregister u st) = [(v, s) \<leftarrow> active_clients st. v \<noteq> u]"
  "trace (deregister u st) = trace st"
  by (simp_all add: deregister_def)

lemma log_simps [simp]:
  "broken (log e st) = broken st"
  "active_clients (log e st) = active_clients st"
  "trace (log e st) = trace st @ [e]"
  by (simp_all add: log_def)

lemma send_loop_steady:
  "failing (broken st) snap = {} \<Longrightarrow>
     send_loop msg snap st = st\<lparr>trace := trace st @ map (\<lambda>(v, s). Sent s msg) snap\<rparr>"
proof (induction snap arbitrary: st)
  case Nil
  then show ?case by simp
next
  case (Cons e snap)
  obtain u sock where e: "e = (u, sock)" by (cases e)
  from Cons.prems have ok: "sock \<notin> set (broken st)" and rest: "failing (broken st) snap = {}"
    unfolding e by (auto simp: failing_def)
  from rest have "failing (broken (log (Sent sock msg) st)) snap = {}" by simp
  from Cons.IH [OF this] ok show ?case
    unfolding e by (simp add: log_def)
qed

lemma delivered_to_working:
  "(v, s) \<in> set snap \<Longrightarrow> s \<notin> set (broken st) \<Longrightarrow> Sent s msg \<in> set (emitted msg snap st)"
  by (induction msg snap st rule: send_loop.induct) (auto simp: emitted_Cons)

lemma failure_recorded:
  "(v, s) \<in> set snap \<Longrightarrow> s \<in> set (broken st) \<Longrightarrow> Failed s msg \<in> set (emitted msg snap st)"
  by (induction msg snap st rule: send_loop.induct) (auto simp: emitted_Cons)

lemma presence_only:
  "is_presence msg \<Longrightarrow> e \<in> set (emitted msg snap st) \<Longrightarrow> presence_event e"
  by (induction msg snap st rule: send_loop.induct) (auto simp: emitted_Cons split: if_splits)

lemma about_presence: "about m e \<Longrightarrow> presence_event e \<Longrightarrow> is_presence m"
  by (cases e) auto

lemma exact_attempts:
  "\<not> is_presence msg \<Longrightarrow>
     filter (about msg) (emitted msg snap st) = map (attempt (broken st) msg) snap"
proof (induction msg snap st rule: send_loop.induct)
  case (1 msg st)
  then show ?case by simp
next
  case (2 msg u sock rest st)
  show ?case
  proof (cases "sock \<in> set (broken st)")
    case False
    with 2 show ?thesis by (simp add: emitted_Cons attempt_def)
  next
    case True
    have "filter (about msg)
            (emitted (user_list_msg (deregister u (log (Failed sock msg) st)))
                     (active_clients (deregister u (log (Failed sock msg) st)))
                     (deregister u (log (Failed sock msg) st))) = []"
      using "2.prems" presence_only [OF is_presence_user_list] about_presence
      unfolding filter_empty_conv by blast
    with 2 True show ?thesis by (simp add: emitted_Cons attempt_def)
  qed
qed

lemma filter_sock_neq:
  "[(v, s) \<leftarrow> xs. s = c] = [(uc, c)] \<Longrightarrow> uc \<notin> G \<Longrightarrow>
     [(v, s) \<leftarrow> [(v, s) \<leftarrow> xs. v \<notin> G]. s = c] = [(uc, c)]"
proof -
  assume a: "[(v, s) \<leftarrow> xs. s = c] = [(uc, c)]" and b: "uc \<notin> G"
  have "[(v, s) \<leftarrow> [(v, s) \<leftarrow> xs. v \<notin> G]. s = c] = [(v, s) \<leftarrow> [(v, s) \<leftarrow> xs. s = c]. v \<notin> G]"
    unfolding filter_filter by (rule filter_cong) auto
  with a b show ?thesis by simp
qed

lemma failing_filter_subset: "failing bk [(v, s) \<leftarrow> xs. v \<notin> G] \<subseteq> failing bk xs"
  by (auto simp: failing_def)

lemma presence_count:
  "c \<notin> set (broken st) \<Longrightarrow>
   [(v, s) \<leftarrow> active_clients st. s = c] = [(uc, c)] \<Longrightarrow>
   uc \<notin> failing (broken st) snap \<Longrightarrow>
   uc \<notin> failing (broken st) (active_clients st) \<Longrightarrow>
     length (filter (presence_to c) (emitted msg snap st)) =
       length (filter is_failure (emitted msg snap st)) +
       (if is_presence msg then length [(v, s) \<leftarrow> snap. s = c] else 0)"
proof (induction msg snap st rule: send_loop.induct)
  case (1 msg st)
  then show ?case by simp
next
  case (2 msg u sock rest st)
  show ?case
  proof (cases "sock \<in> set (broken st)")
    case False
    with "2.prems" have "uc \<notin> failing (broken st) rest"
      by (simp add: failing_Cons)
    with 2 False show ?thesis
      by (auto simp: emitted_Cons)
  next
    case True
    define st1 where "st1 = deregister u (log (Failed sock msg) st)"
    define st2 where "st2 = send_loop (user_list_msg st1) (active_clients st1) st1"
    from True "2.prems" have ne: "u \<noteq> uc" "sock \<noteq> c" and rest: "uc \<notin> failing (broken st) rest"
      by (auto simp: failing_Cons)
    have b1: "broken st1 = broken st" by (simp add: st1_def)
    have r1: "active_clients st1 = [(v, s) \<leftarrow> active_clients st. v \<notin> {u}]"
      by (simp add: st1_def)
    have c1: "[(v, s) \<leftarrow> active_clients st1. s = c] = [(uc, c)]"
      unfolding r1 using "2.prems"(2) ne by (intro filter_sock_neq) auto
    have f1: "uc \<notin> failing (broken st) (active_clients st1)"
      unfolding r1 using "2.prems"(4) failing_filter_subset by blast
    have ih1: "length (filter (presence_to c) (emitted (user_list_msg st1) (active_clients st1) st1)) =
                 length (filter is_failure (emitted (user_list_msg st1) (active_clients st1) st1)) + 1"
      using "2.IH"(1) [OF True, folded st1_def] "2.prems"(1) c1 f1 by (simp add: b1)
    have b2: "broken st2 = broken st" by (simp add: st2_def b1)
    have r2: "active_clients st2 =
                [(v, s) \<leftarrow> active_clients st1. v \<notin> failing (broken st) (active_clients st1)]"
      unfolding st2_def send_loop_registry b1 by (rule filter_notin_if)
    have c2: "[(v, s) \<leftarrow> active_clients st2. s = c] = [(uc, c)]"
      unfolding r2 using c1 f1 by (rule filter_sock_neq)
    have f2: "uc \<notin> failing (broken st) (active_clients st2)"
      unfolding r2 using f1 failing_filter_subset by blast
    have ih2: "length (filter (presence_to c) (emitted msg rest st2)) =
                 length (filter is_failure (emitted msg rest st2)) +
                 (if is_presence msg then length [(v, s) \<leftarrow> rest. s = c] else 0)"
      using "2.IH"(2) [OF True, folded st1_def, folded st2_def] "2.prems"(1) c2 f2 rest
      by (simp add: b2)
    have "emitted msg ((u, sock) # rest) st =
            Failed sock msg # emitted (user_list_msg st1) (active_clients st1) st1 @ emitted msg rest st2"
      using True by (simp add: emitted_Cons st2_def st1_def)
    with ih1 ih2 ne show ?thesis by simp
  qed
qed


text \<open>
  The step of the loop as the source writes it: try \<open>sendall\<close>, and call \<open>remove_client\<close>
  when it raises.
\<close>

lemma send_loop_step:
  "send_loop msg ((u, sock) # rest) st =
     (case sendall sock msg st of
        (True, st') \<Rightarrow> send_loop msg rest st'
      | (False, st') \<Rightarrow> send_loop msg rest (remove_client u st'))"
  by (simp add: sendall_def remove_client_def broadcast_user_list_def)

lemma broadcast_registry:
  "active_clients (send_loop msg (active_clients st) st) =
     [(v, s) \<leftarrow> active_clients st. v \<notin> failing (broken st) (active_clients st)]"
  unfolding send_loop_registry by (rule filter_cong) auto

lemma deregister_absent:
  "u \<notin> fst ` set (active_clients st) \<Longrightarrow> deregister u st = st"
proof -
  assume "u \<notin> fst ` set (active_clients st)"
  then have "[(v, s) \<leftarrow> active_clients st. v \<noteq> u] = active_clients st"
    by (force simp: filter_id_conv)
  then show ?thesis by (simp add: deregister_def)
qed

text \<open>The definitions unfolded when a run is evaluated on an example.\<close>

lemmas run_defs =
  room_def initial_server_def add_default_users_def emitted_Cons deregister_def log_def
  user_list_msg_def chat_msg_def failing_def broadcast_message_def broadcast_user_list_def
  remove_client_def py_get_def

section \<open>Failures during a broadcast\<close>

text \<open>
  C6.  A broadcast of \<open>msg\<close> over the registry of \<open>st\<close> (the presence broadcast is the case
  \<open>msg = user_list_msg st\<close>) adds the events \<open>emitted msg (active_clients st) st\<close> to the
  trace.  Every entry of the snapshot is attempted whatever happens to the others: a
  working sink is sent \<open>msg\<close>, a failing one has its failure recorded and its username
  gone from the registry afterwards; the registry that remains is the old one without the
  usernames that key a failing sink.  Each failed write is followed by exactly one
  presence broadcast: a working sink \<open>c\<close> that is registered once, under a username that
  keys no failing sink, receives as many presence records as there were failed writes
  (and one more when the broadcast itself is a presence broadcast).
\<close>

theorem broadcast_survives_failures:
  "trace (broadcast_message msg st) = trace st @ emitted msg (active_clients st) st \<and>
   broadcast_user_list st = broadcast_message (user_list_msg st) st \<and>
   (\<forall>(v, s) \<in> set (active_clients st).
      if s \<in> set (broken st)
      then Failed s msg \<in> set (emitted msg (active_clients st) st) \<and>
           v \<notin> fst ` set (active_clients (broadcast_message msg st))
      else Sent s msg \<in> set (emitted msg (active_clients st) st)) \<and>
   active_clients (broadcast_message msg st) =
     [(v, s) \<leftarrow> active_clients st. v \<notin> failing (broken st) (active_clients st)] \<and>
   (c \<notin> set (broken st) \<and> [(v, s) \<leftarrow> active_clients st. s = c] = [(uc, c)] \<and>
    uc \<notin> failing (broken st) (active_clients st) \<longrightarrow>
      length (filter (presence_to c) (emitted msg (active_clients st) st)) =
        length (filter is_failure (emitted msg (active_clients st) st)) +
        (if is_presence msg then 1 else 0))"
proof (intro conjI)
  show "trace (broadcast_message msg st) = trace st @ emitted msg (active_clients st) st"
    by (simp add: broadcast_message_def trace_send_loop)
  show "broadcast_user_list st = broadcast_message (user_list_msg st) st"
    by (simp add: broadcast_user_list_def broadcast_message_def)
  show reg: "active_clients (broadcast_message msg st) =
     [(v, s) \<leftarrow> active_clients st. v \<notin> failing (broken st) (active_clients st)]"
    by (simp add: broadcast_message_def broadcast_registry)
  show "\<forall>(v, s) \<in> set (active_clients st).
      if s \<in> set (broken st)
      then Failed s msg \<in> set (emitted msg (active_clients st) st) \<and>
           v \<notin> fst ` set (active_clients (broadcast_message msg st))
      else Sent s msg \<in> set (emitted msg (active_clients st) st)"
  proof (intro ballI)
    fix e assume e: "e \<in> set (active_clients st)"
    obtain v s where vs: "e = (v, s)" by (cases e)
    show "case e of (v, s) \<Rightarrow>
            if s \<in> set (broken st)
            then Failed s msg \<in> set (emitted msg (active_clients st) st) \<and>
                 v \<notin> fst ` set (active_clients (broadcast_message msg st))
            else Sent s msg \<in> set (emitted msg (active_clients st) st)"
    proof (cases "s \<in> set (broken st)")
      case False
      with e show ?thesis
        unfolding vs by (simp add: delivered_to_working)
    next
      case True
      with e have "v \<in> failing (broken st) (active_clients st)"
        unfolding vs by (auto simp: failing_def)
      then have "v \<notin> fst ` set (active_clients (broadcast_message msg st))"
        unfolding reg by auto
      with e True show ?thesis
        unfolding vs by (simp add: failure_recorded)
    qed
  qed
  show "c \<notin> set (broken st) \<and> [(v, s) \<leftarrow> active_clients st. s = c] = [(uc, c)] \<and>
    uc \<notin> failing (broken st) (active_clients st) \<longrightarrow>
      length (filter (presence_to c) (emitted msg (active_clients st) st)) =
        length (filter is_failure (emitted msg (active_clients st) st)) +
        (if is_presence msg then 1 else 0)"
  proof (intro impI, elim conjE)
    assume a: "c \<notin> set (broken st)" "[(v, s) \<leftarrow> active_clients st. s = c] = [(uc, c)]"
      "uc \<notin> failing (broken st) (active_clients st)"
    from presence_count [OF a(1) a(2) a(3) a(3), of msg] a(2)
    show "length (filter (presence_to c) (emitted msg (active_clients st) st)) =
        length (filter is_failure (emitted msg (active_clients st) st)) +
        (if is_presence msg then 1 else 0)"
      by simp
  qed
qed

text \<open>
  The theorem on two clients, the first of which has failed: the chat message of
  \<open>mohamed\<close> fails on socket 1, the user list without \<open>yosif\<close> goes to socket 2, then
  the chat message reaches socket 2.
\<close>

theorem broadcast_survives_failures_witness:
  "2 \<notin> set (broken (room [(JStr ''yosif'', 1), (JStr ''mohamed'', 2)] [1])) \<and>
   [(v, s) \<leftarrow> active_clients (room [(JStr ''yosif'', 1), (JStr ''mohamed'', 2)] [1]). s = 2] =
     [(JStr ''mohamed'', 2)] \<and>
   JStr ''mohamed'' \<notin> failing (broken (room [(JStr ''yosif'', 1), (JStr ''mohamed'', 2)] [1]))
      (active_clients (room [(JStr ''yosif'', 1), (JStr ''mohamed'', 2)] [1])) \<and>
   emitted (chat_msg (JStr ''mohamed'') (JStr ''hi'') ''12:00'')
     (active_clients (room [(JStr ''yosif'', 1), (JStr ''mohamed'', 2)] [1]))
     (room [(JStr ''yosif'', 1), (JStr ''mohamed'', 2)] [1]) =
     [Failed 1 (chat_msg (JStr ''mohamed'') (JStr ''hi'') ''12:00''),
      Sent 2 (JObj [(''type'', JStr ''user_list''), (''content'', JArr [JStr ''mohamed''])]),
      Sent 2 (chat_msg (JStr ''mohamed'') (JStr ''hi'') ''12:00'')] \<and>
   length (filter (presence_to 2)
     (emitted (chat_msg (JStr ''mohamed'') (JStr ''hi'') ''12:00'')
       (active_clients (room [(JStr ''yosif'', 1), (JStr ''mohamed'', 2)] [1]))
       (room [(JStr ''yosif'', 1), (JStr ''mohamed'', 2)] [1]))) = 1 \<and>
   active_clients (broadcast_message (chat_msg (JStr ''mohamed'') (JStr ''hi'') ''12:00'')
     (room [(JStr ''yosif'', 1), (JStr ''mohamed'', 2)] [1])) = [(JStr ''mohamed'', 2)]"
  using broadcast_survives_failures
    [of "chat_msg (JStr ''mohamed'') (JStr ''hi'') ''12:00''"
        "room [(JStr ''yosif'', 1), (JStr ''mohamed'', 2)] [1]" 2 "JStr ''mohamed''"]
  by (simp add: run_defs)

section \<open>Removing a client\<close>

text \<open>
  C7, as the code has it.  \<open>remove_client\<close> of a username that keys no entry is the
  presence broadcast on the unchanged registry: it is not silent.  When no sink of the
  registry fails, the registry stays as it is and every sink is sent the user list once.
\<close>

theorem remove_absent_still_broadcasts:
  "u \<notin> fst ` set (active_clients st) \<Longrightarrow>
     remove_client u st = broadcast_user_list st \<and>
     (failing (broken st) (active_clients st) = {} \<longrightarrow>
        active_clients (remove_client u st) = active_clients st \<and>
        trace (remove_client u st) =
          trace st @ map (\<lambda>(v, s). Sent s (user_list_msg st)) (active_clients st))"
  by (simp add: remove_client_def deregister_absent broadcast_user_list_def send_loop_steady)

text \<open>
  C7 as stated fails: with \<open>yosif\<close> alone in the registry, removing the absent
  \<open>mohamed\<close> sends \<open>yosif\<close> a user list.
\<close>

theorem remove_absent_counterexample:
  "JStr ''mohamed'' \<notin> fst ` set (active_clients (room [(JStr ''yosif'', 1)] [])) \<and>
   trace (remove_client (JStr ''mohamed'') (room [(JStr ''yosif'', 1)] [])) =
     trace (room [(JStr ''yosif'', 1)] []) @
     [Sent 1 (JObj [(''type'', JStr ''user_list''), (''content'', JArr [JStr ''yosif''])])]"
  by (simp add: run_defs)

text \<open>The amended statement on the same state.\<close>

theorem remove_absent_still_broadcasts_witness:
  "JStr ''mohamed'' \<notin> fst ` set (active_clients (room [(JStr ''yosif'', 1)] [])) \<and>
   failing (broken (room [(JStr ''yosif'', 1)] [])) (active_clients (room [(JStr ''yosif'', 1)] [])) = {} \<and>
   active_clients (remove_client (JStr ''mohamed'') (room [(JStr ''yosif'', 1)] [])) =
     [(JStr ''yosif'', 1)] \<and>
   trace (remove_client (JStr ''mohamed'') (room [(JStr ''yosif'', 1)] [])) =
     [Sent 1 (user_list_msg (room [(JStr ''yosif'', 1)] []))]"
proof -
  have absent: "JStr ''mohamed'' \<notin> fst ` set (active_clients (room [(JStr ''yosif'', 1)] []))"
    by (simp add: room_def)
  have steady: "failing (broken (room [(JStr ''yosif'', 1)] []))
                  (active_clients (room [(JStr ''yosif'', 1)] [])) = {}"
    by (simp add: room_def failing_def)
  have start: "active_clients (room [(JStr ''yosif'', 1)] []) = [(JStr ''yosif'', 1)]"
    "trace (room [(JStr ''yosif'', 1)] []) = []"
    by (simp_all add: room_def initial_server_def add_default_users_def)
  from remove_absent_still_broadcasts [OF absent] steady
  have "active_clients (remove_client (JStr ''mohamed'') (room [(JStr ''yosif'', 1)] [])) =
          active_clients (room [(JStr ''yosif'', 1)] []) \<and>
        trace (remove_client (JStr ''mohamed'') (room [(JStr ''yosif'', 1)] [])) =
          trace (room [(JStr ''yosif'', 1)] []) @
          map (\<lambda>(v, s). Sent s (user_list_msg (room [(JStr ''yosif'', 1)] [])))
            (active_clients (room [(JStr ''yosif'', 1)] []))"
    by blast
  with absent steady show ?thesis
    by (simp only: start) simp
qed


text \<open>
  C10, as the code has it.  After \<open>remove_client username\<close> the registry holds, in their
  old order, the entries whose username is neither \<open>username\<close> nor the key of a failing
  sink (those are removed by the presence broadcast that follows); no entry keyed
  \<open>username\<close> is left, however many there were.  When no other username keys a failing
  sink, exactly the entries of \<open>username\<close> are gone.
\<close>

theorem remove_client_drops_every_entry:
  "active_clients (remove_client username st) =
     [(v, s) \<leftarrow> active_clients st.
        v \<noteq> username \<and> v \<notin> failing (broken st) (active_clients st)] \<and>
   username \<notin> fst ` set (active_clients (remove_client username st)) \<and>
   (failing (broken st) (active_clients st) \<subseteq> {username} \<longrightarrow>
      active_clients (remove_client username st) =
        [(v, s) \<leftarrow> active_clients st. v \<noteq> username])"
proof -
  have reg: "active_clients (remove_client username st) =
     [(v, s) \<leftarrow> active_clients st.
        v \<noteq> username \<and> v \<notin> failing (broken st) (active_clients st)]"
    unfolding remove_client_def broadcast_user_list_def broadcast_registry
    by (simp add: failing_filter_neq) (rule filter_cong, auto)
  moreover have "username \<notin> fst ` set (active_clients (remove_client username st))"
    unfolding reg by auto
  moreover have "failing (broken st) (active_clients st) \<subseteq> {username} \<longrightarrow>
      active_clients (remove_client username st) =
        [(v, s) \<leftarrow> active_clients st. v \<noteq> username]"
    unfolding reg by (auto intro!: filter_cong)
  ultimately show ?thesis by blast
qed


text \<open>
  C10 as stated fails in its last part: with \<open>yosif\<close> and \<open>mohamed\<close> registered and the
  socket of \<open>mohamed\<close> dead, removing \<open>yosif\<close> leaves an empty registry, not the entry of
  \<open>mohamed\<close>: the user list cannot be written to socket 2, and that failure removes
  \<open>mohamed\<close> in turn.
\<close>

theorem other_entries_kept_counterexample:
  "[(v, s) \<leftarrow> active_clients (room [(JStr ''yosif'', 1), (JStr ''mohamed'', 2)] [2]).
      v \<noteq> JStr ''yosif''] = [(JStr ''mohamed'', 2)] \<and>
   active_clients
     (remove_client (JStr ''yosif'') (room [(JStr ''yosif'', 1), (JStr ''mohamed'', 2)] [2])) = [] \<and>
   trace
     (remove_client (JStr ''yosif'') (room [(JStr ''yosif'', 1), (JStr ''mohamed'', 2)] [2])) =
     [Failed 2 (JObj [(''type'', JStr ''user_list''), (''content'', JArr [JStr ''mohamed''])])]"
  by (simp add: room_def initial_server_def add_default_users_def remove_client_def
      broadcast_user_list_def deregister_def user_list_msg_def log_def)

text \<open>
  The amended statement on two logins of \<open>yosif\<close> (sockets 1 and 3, the first one dead)
  and one of \<open>mohamed\<close>: one \<open>remove_client\<close> drops both entries of \<open>yosif\<close> and keeps
  that of \<open>mohamed\<close>.
\<close>

theorem remove_client_drops_every_entry_witness:
  "failing (broken (room [(JStr ''yosif'', 1), (JStr ''mohamed'', 2), (JStr ''yosif'', 3)] [1]))
     (active_clients (room [(JStr ''yosif'', 1), (JStr ''mohamed'', 2), (JStr ''yosif'', 3)] [1]))
     \<subseteq> {JStr ''yosif''} \<and>
   active_clients (remove_client (JStr ''yosif'')
     (room [(JStr ''yosif'', 1), (JStr ''mohamed'', 2), (JStr ''yosif'', 3)] [1])) =
     [(JStr ''mohamed'', 2)]"
  using remove_client_drops_every_entry
    [of "JStr ''yosif''" "room [(JStr ''yosif'', 1), (JStr ''mohamed'', 2), (JStr ''yosif'', 3)] [1]"]
  by (auto simp: room_def initial_server_def add_default_users_def failing_def)


section \<open>The handshake\<close>

text \<open>
  C9.  When the first read of a new connection returns no data, \<open>handle_auth\<close> returns
  \<^verbatim>\<open>None\<close> without sending anything, and \<open>client_handler\<close> only closes the socket: the
  trace gains the closing and no response, the registry and the credential store are as
  before.
\<close>

theorem empty_handshake_closes_silently:
  "handle_auth loads sock (Data []) st = (Inr JNull, st) \<and>
   client_handler loads sock (Data []) st = st\<lparr>trace := trace st @ [Closed sock]\<rparr> \<and>
   active_clients (client_handler loads sock (Data []) st) = active_clients st"
  by (simp add: handle_auth_def client_handler_def log_def)

declare show_nat.simps [simp del]

text \<open>
  An integer credential behaves as its decimal text: \<^verbatim>\<open>validate_user('yosif', 1010)\<close>
  holds on a new database, and \<^verbatim>\<open>register_user(5, 'x')\<close> stores the row \<^verbatim>\<open>('5', 'x')\<close>.
\<close>

lemma show_nat_digit: "n < 10 \<Longrightarrow> show_nat n = [''0123456789'' ! n]"
  by (subst show_nat.simps) simp

lemma show_nat_digits:
  "10 \<le> n \<Longrightarrow> show_nat n = show_nat (n div 10) @ [''0123456789'' ! (n mod 10)]"
  by (subst show_nat.simps) simp

lemma show_int_examples:
  "show_int 1010 = ''1010''" "show_int 5 = ''5''" "show_int (- 42) = ''-42''"
  by (simp_all add: show_int_def show_nat_digit show_nat_digits)

lemma integer_credentials:
  "validate_user (JStr ''yosif'') (JNum 1010) initial_server = Inr True"
  "register_user (JNum 5) (JStr ''x'') initial_server =
     Inr (True, initial_server\<lparr>users := users initial_server @ [(''5'', ''x'')]\<rparr>)"
  by (simp_all add: validate_user_def register_user_def sql_param_def show_int_examples
      initial_server_def add_default_users_def)

text \<open>Evaluating the example texts.\<close>

lemma strip_samples:
  "py_strip (login_ok_text @ [CHR 0x0A]) = login_ok_text"
  "py_strip (login_bad_text @ [CHR 0x0A]) = login_bad_text"
  "py_strip (register_new_text @ [CHR 0x0A]) = register_new_text"
  "py_strip (register_taken_text @ [CHR 0x0A]) = register_taken_text"
  by (simp_all add: py_strip_def login_ok_text_def login_bad_text_def register_new_text_def
      register_taken_text_def isspace_def)

lemma sample_loads_handshake:
  "sample_loads login_ok_text = Some (credentials ''login'' ''yosif'' ''1010'')"
  "sample_loads login_bad_text = Some (credentials ''login'' ''yosif'' ''0000'')"
  "sample_loads register_new_text = Some (credentials ''register'' ''alice'' ''pw1'')"
  "sample_loads register_taken_text = Some (credentials ''register'' ''yosif'' ''pw1'')"
  by (simp_all add: sample_loads_def login_ok_text_def login_bad_text_def register_new_text_def
      register_taken_text_def)

lemma credentials_fields:
  "py_get [(''action'', JStr a), (''username'', JStr u), (''password'', JStr p)] ''action'' = JStr a"
  "py_get [(''action'', JStr a), (''username'', JStr u), (''password'', JStr p)] ''username'' = JStr u"
  "py_get [(''action'', JStr a), (''username'', JStr u), (''password'', JStr p)] ''password'' = JStr p"
  by (simp_all add: py_get_def)

lemma initial_server_fields:
  "users initial_server = [(''yosif'', ''1010''), (''mohamed'', ''1010'')]"
  "active_clients initial_server = []"
  "broken initial_server = []"
  "trace initial_server = []"
  "reads initial_server = 0"
  by (simp_all add: initial_server_def add_default_users_def)

text \<open>
  C4.  A handshake whose action is \<open>register\<close>, with a username \<open>u\<close> and a password \<open>p\<close>
  that are strings: \<open>register_user\<close> succeeds exactly when \<open>u\<close> is not in the table, and
  then adds the row.  On a socket that takes the response, \<open>handle_auth\<close> sends the record
  \<^verbatim>\<open>{"status": "success"}\<close>, or on a taken username the record
  \<^verbatim>\<open>{"status": "error", "message": "Username already exists"}\<close>, and returns \<^verbatim>\<open>None\<close>
  either way, so that \<open>client_handler\<close> closes the socket.  The registry is never touched.
\<close>

theorem register_never_authenticates:
  assumes "raw \<noteq> []" and "loads (py_strip raw) = Some (JObj d)"
    and "py_get d ''action'' = JStr ''register''"
    and "py_get d ''username'' = JStr u" and "py_get d ''password'' = JStr p"
  shows "register_user (JStr u) (JStr p) st =
           Inr (u \<notin> fst ` set (users st),
                if u \<in> fst ` set (users st) then st else st\<lparr>users := users st @ [(u, p)]\<rparr>) \<and>
         (sock \<notin> set (broken st) \<longrightarrow>
            handle_auth loads sock (Data raw) st =
              (Inr JNull,
               if u \<in> fst ` set (users st)
               then log (Sent sock (JObj [(''status'', JStr ''error''),
                                          (''message'', JStr ''Username already exists'')])) st
               else log (Sent sock (JObj [(''status'', JStr ''success'')]))
                      (st\<lparr>users := users st @ [(u, p)]\<rparr>)) \<and>
            client_handler loads sock (Data raw) st =
              log (Closed sock)
                (if u \<in> fst ` set (users st)
                 then log (Sent sock (JObj [(''status'', JStr ''error''),
                                            (''message'', JStr ''Username already exists'')])) st
                 else log (Sent sock (JObj [(''status'', JStr ''success'')]))
                        (st\<lparr>users := users st @ [(u, p)]\<rparr>))) \<and>
         active_clients (client_handler loads sock (Data raw) st) = active_clients st"
  using assms
  by (simp add: register_user_def sql_param_def handle_auth_def client_handler_def reply_def
      sendall_def log_def success_msg_def error_msg_def)

text \<open>On a new database \<open>alice\<close> is registered and \<open>yosif\<close> is refused.\<close>

theorem register_never_authenticates_witness:
  "handle_auth sample_loads 1 (Data (register_new_text @ [CHR 0x0A])) initial_server =
     (Inr JNull,
      log (Sent 1 (JObj [(''status'', JStr ''success'')]))
        (initial_server\<lparr>users := users initial_server @ [(''alice'', ''pw1'')]\<rparr>)) \<and>
   handle_auth sample_loads 1 (Data (register_taken_text @ [CHR 0x0A])) initial_server =
     (Inr JNull, log (Sent 1 (JObj [(''status'', JStr ''error''),
                                    (''message'', JStr ''Username already exists'')])) initial_server) \<and>
   active_clients
     (client_handler sample_loads 1 (Data (register_new_text @ [CHR 0x0A])) initial_server) = [] \<and>
   active_clients
     (client_handler sample_loads 1 (Data (register_taken_text @ [CHR 0x0A])) initial_server) = []"
proof -
  have alive: "1 \<notin> set (broken initial_server)"
    by (simp add: initial_server_fields)
  have fresh: "''alice'' \<notin> fst ` set (users initial_server)"
    and taken: "''yosif'' \<in> fst ` set (users initial_server)"
    by (simp_all add: initial_server_fields)
  note new = register_never_authenticates
    [of "register_new_text @ [CHR 0x0A]" sample_loads _ "''alice''" "''pw1''" initial_server 1,
     unfolded strip_samples sample_loads_handshake credentials_def,
     OF _ refl credentials_fields]
  note old = register_never_authenticates
    [of "register_taken_text @ [CHR 0x0A]" sample_loads _ "''yosif''" "''pw1''" initial_server 1,
     unfolded strip_samples sample_loads_handshake credentials_def,
     OF _ refl credentials_fields]
  from new old alive fresh taken show ?thesis
    by (simp add: initial_server_fields)
qed

text \<open>
  C5.  A handshake whose action is \<open>login\<close>, on a socket that takes the response:
  \<open>validate_user\<close> holds exactly when the pair \<open>(u, p)\<close> is a row of the table.  Then
  \<open>handle_auth\<close> sends the record \<^verbatim>\<open>{"status": "success"}\<close> and returns \<open>u\<close>; otherwise it
  sends the record \<^verbatim>\<open>{"status": "error", "message": "Invalid credentials"}\<close> and returns
  \<^verbatim>\<open>None\<close>, and \<open>client_handler\<close> closes the socket without registering it.
\<close>

theorem login_checks_exact_pair:
  assumes "raw \<noteq> []" and "loads (py_strip raw) = Some (JObj d)"
    and "py_get d ''action'' = JStr ''login''"
    and "py_get d ''username'' = JStr u" and "py_get d ''password'' = JStr p"
    and "sock \<notin> set (broken st)"
  shows "validate_user (JStr u) (JStr p) st = Inr ((u, p) \<in> set (users st)) \<and>
         handle_auth loads sock (Data raw) st =
           (if (u, p) \<in> set (users st) then (Inr (JStr u), log (Sent sock (JObj [(''status'', JStr ''success'')])) st)
            else (Inr JNull, log (Sent sock (JObj [(''status'', JStr ''error''),
                                                   (''message'', JStr ''Invalid credentials'')])) st)) \<and>
         ((u, p) \<notin> set (users st) \<longrightarrow>
            client_handler loads sock (Data raw) st =
              log (Closed sock) (log (Sent sock (JObj [(''status'', JStr ''error''),
                                                       (''message'', JStr ''Invalid credentials'')])) st) \<and>
            active_clients (client_handler loads sock (Data raw) st) = active_clients st)"
  using assms
  by (simp add: validate_user_def sql_param_def handle_auth_def client_handler_def reply_def
      sendall_def log_def success_msg_def error_msg_def)

text \<open>On a new database \<open>yosif\<close> logs in with \<open>1010\<close> and is refused with \<open>0000\<close>.\<close>

theorem login_checks_exact_pair_witness:
  "handle_auth sample_loads 1 (Data (login_ok_text @ [CHR 0x0A])) initial_server =
     (Inr (JStr ''yosif''), log (Sent 1 (JObj [(''status'', JStr ''success'')])) initial_server) \<and>
   handle_auth sample_loads 1 (Data (login_bad_text @ [CHR 0x0A])) initial_server =
     (Inr JNull, log (Sent 1 (JObj [(''status'', JStr ''error''),
                                    (''message'', JStr ''Invalid credentials'')])) initial_server) \<and>
   active_clients
     (client_handler sample_loads 1 (Data (login_bad_text @ [CHR 0x0A])) initial_server) = []"
proof -
  have alive: "1 \<notin> set (broken initial_server)"
    by (simp add: initial_server_fields)
  note ok = login_checks_exact_pair
    [of "login_ok_text @ [CHR 0x0A]" sample_loads _ "''yosif''" "''1010''" 1 initial_server,
     unfolded strip_samples sample_loads_handshake credentials_def,
     OF _ refl credentials_fields alive]
  note bad = login_checks_exact_pair
    [of "login_bad_text @ [CHR 0x0A]" sample_loads _ "''yosif''" "''0000''" 1 initial_server,
     unfolded strip_samples sample_loads_handshake credentials_def,
     OF _ refl credentials_fields alive]
  from ok bad show ?thesis
    by (simp add: initial_server_fields)
qed

text \<open>
  What \<open>client_handler\<close> makes of the returned username is a separate matter: it tests
  \<^verbatim>\<open>if not username\<close>, so a login under the empty name, once such an account exists, is
  answered with the success record and then closed like a refusal.
\<close>

lemma empty_username_login_is_closed:
  assumes "raw \<noteq> []" and "loads (py_strip raw) = Some (JObj d)"
    and "py_get d ''action'' = JStr ''login''"
    and "py_get d ''username'' = JStr []" and "py_get d ''password'' = JStr p"
    and "sock \<notin> set (broken st)" and "([], p) \<in> set (users st)"
  shows "client_handler loads sock (Data raw) st =
           log (Closed sock) (log (Sent sock success_msg) st)"
  using assms
  by (simp add: validate_user_def sql_param_def handle_auth_def client_handler_def reply_def
      sendall_def log_def)

section \<open>Adding a client\<close>

text \<open>
  C2, as the code has it.  The registry is a list and \<open>client_handler\<close> appends to it: a
  successful login under a non-empty name \<open>u\<close> puts \<open>(u, sock)\<close> after the entries that
  are there, whether or not one of them is keyed \<open>u\<close>, and the presence broadcast that
  follows removes the usernames that key a failing sink.  When no sink fails, the registry
  afterwards is the old one followed by the new entry.
\<close>

theorem login_appends_entry:
  assumes "raw \<noteq> []" and "loads (py_strip raw) = Some (JObj d)"
    and "py_get d ''action'' = JStr ''login''"
    and "py_get d ''username'' = JStr u" and "py_get d ''password'' = JStr p"
    and "sock \<notin> set (broken st)" and "(u, p) \<in> set (users st)" and "u \<noteq> []"
  shows "active_clients (client_handler loads sock (Data raw) st) =
           [(v, s) \<leftarrow> active_clients st @ [(JStr u, sock)].
              v \<notin> failing (broken st) (active_clients st)] \<and>
         (failing (broken st) (active_clients st) = {} \<longrightarrow>
            active_clients (client_handler loads sock (Data raw) st) =
              active_clients st @ [(JStr u, sock)])"
proof -
  define st1 where "st1 = log (Sent sock success_msg) st"
  define st2 where "st2 = st1\<lparr>active_clients := active_clients st1 @ [(JStr u, sock)]\<rparr>"
  have auth: "handle_auth loads sock (Data raw) st = (Inr (JStr u), st1)"
    using assms
    by (simp add: validate_user_def sql_param_def handle_auth_def reply_def sendall_def st1_def)
  have run: "client_handler loads sock (Data raw) st = broadcast_user_list st2"
    using assms(8) by (simp add: client_handler_def auth st2_def)
  have f: "failing (broken st2) (active_clients st2) = failing (broken st) (active_clients st)"
    using assms(6) by (auto simp: st2_def st1_def failing_def)
  have reg: "active_clients (broadcast_user_list st2) =
           [(v, s) \<leftarrow> active_clients st @ [(JStr u, sock)].
              v \<notin> failing (broken st) (active_clients st)]"
    unfolding broadcast_user_list_def broadcast_registry f
    by (simp add: st2_def st1_def)
  show ?thesis
    unfolding run reg by (auto simp: filter_id_conv failing_def)
qed


text \<open>The first login of \<open>yosif\<close> on a new server.\<close>

lemma first_login:
  "client_handler sample_loads 1 (Data (login_ok_text @ [CHR 0x0A])) initial_server =
     initial_server
       \<lparr>active_clients := [(JStr ''yosif'', 1)],
        trace := [Sent 1 success_msg,
                  Sent 1 (JObj [(''type'', JStr ''user_list''), (''content'', JArr [JStr ''yosif''])])]\<rparr>"
  by (simp add: client_handler_def handle_auth_def strip_samples sample_loads_handshake
      credentials_def py_get_def validate_user_def sql_param_def reply_def sendall_def
      initial_server_def add_default_users_def broadcast_user_list_def user_list_msg_def log_def)

text \<open>
  C2 as stated fails: after two logins of \<open>yosif\<close>, on sockets 1 and 2, the registry
  holds two entries keyed \<open>yosif\<close>.
\<close>

theorem unique_usernames_counterexample:
  "active_clients
     (client_handler sample_loads 2 (Data (login_ok_text @ [CHR 0x0A]))
        (client_handler sample_loads 1 (Data (login_ok_text @ [CHR 0x0A])) initial_server)) =
     [(JStr ''yosif'', 1), (JStr ''yosif'', 2)] \<and>
   \<not> distinct (map fst (active_clients
     (client_handler sample_loads 2 (Data (login_ok_text @ [CHR 0x0A]))
        (client_handler sample_loads 1 (Data (login_ok_text @ [CHR 0x0A])) initial_server))))"
  unfolding first_login
  by (simp add: client_handler_def handle_auth_def strip_samples sample_loads_handshake Let_def
      credentials_def py_get_def validate_user_def sql_param_def reply_def sendall_def
      initial_server_def add_default_users_def broadcast_user_list_def user_list_msg_def log_def)

text \<open>The amended statement on the second login of \<open>yosif\<close>.\<close>

theorem login_appends_entry_witness:
  "failing (broken (room [(JStr ''yosif'', 1)] [])) (active_clients (room [(JStr ''yosif'', 1)] [])) = {} \<and>
   active_clients
     (client_handler sample_loads 2 (Data (login_ok_text @ [CHR 0x0A])) (room [(JStr ''yosif'', 1)] [])) =
     [(JStr ''yosif'', 1), (JStr ''yosif'', 2)]"
proof -
  have alive: "2 \<notin> set (broken (room [(JStr ''yosif'', 1)] []))"
    and known: "(''yosif'', ''1010'') \<in> set (users (room [(JStr ''yosif'', 1)] []))"
    and steady: "failing (broken (room [(JStr ''yosif'', 1)] []))
                   (active_clients (room [(JStr ''yosif'', 1)] [])) = {}"
    by (simp_all add: room_def initial_server_fields failing_def)
  have name: "''yosif'' \<noteq> []" by simp
  note app = login_appends_entry
    [of "login_ok_text @ [CHR 0x0A]" sample_loads _ "''yosif''" "''1010''" 2 "room [(JStr ''yosif'', 1)] []",
     unfolded strip_samples sample_loads_handshake credentials_def,
     OF _ refl credentials_fields alive known name]
  from app steady show ?thesis
    by (simp add: room_def initial_server_fields)
qed

section \<open>The message loop\<close>

lemma process_buffer_no_line:
  "split_line buffer = None \<Longrightarrow> process_buffer loads username buffer st = (None, buffer, st)"
  by (subst process_buffer.simps) simp

lemma process_buffer_line:
  "split_line buffer = Some (line, rest) \<Longrightarrow>
     process_buffer loads username buffer st =
       (if py_strip line = [] then process_buffer loads username rest st
        else
          (case loads line of
             None \<Rightarrow> process_buffer loads username rest st
           | Some pkt \<Rightarrow>
               (case handle_packet username pkt st of
                  (Some e, st') \<Rightarrow> (Some e, rest, st')
                | (None, st') \<Rightarrow> process_buffer loads username rest st')))"
  by (subst process_buffer.simps) simp

lemma split_line_append:
  "CHR 0x0A \<notin> set line \<Longrightarrow> split_line (line @ CHR 0x0A # rest) = Some (line, rest)"
  by (induction line) (auto simp: split_line_def)

text \<open>The lines that the listener drops: blank, undecodable, or a dict of another type.\<close>

lemma dropped_lines:
  assumes "split_line buffer = Some (line, rest)"
    and "py_strip line = [] \<or> loads line = None \<or>
         (\<exists>d. loads line = Some (JObj d) \<and> py_get d ''type'' \<noteq> JStr ''message'')"
  shows "process_buffer loads username buffer st = process_buffer loads username rest st"
  using assms by (auto simp: process_buffer_line handle_packet_def)

lemma two_digits_shape:
  "\<exists>a b. two_digits n = [a, b] \<and> {a, b} \<subseteq> set ''0123456789''"
proof -
  have "\<And>i. i < 10 \<Longrightarrow> ''0123456789'' ! i \<in> set ''0123456789''"
    by (rule nth_mem) simp
  then have "''0123456789'' ! (n div 10 mod 10) \<in> set ''0123456789''"
    and "''0123456789'' ! (n mod 10) \<in> set ''0123456789''"
    by simp_all
  then show ?thesis unfolding two_digits_def by blast
qed

lemma strftime_HM_shape:
  "\<exists>a b c d. strftime_HM t = [a, b, CHR '':'', c, d] \<and> {a, b, c, d} \<subseteq> set ''0123456789''"
proof -
  obtain a b where h: "two_digits (t div 60 mod 24) = [a, b]" "{a, b} \<subseteq> set ''0123456789''"
    using two_digits_shape by blast
  obtain c d where m: "two_digits (t mod 60) = [c, d]" "{c, d} \<subseteq> set ''0123456789''"
    using two_digits_shape by blast
  have "strftime_HM t = [a, b, CHR '':'', c, d]"
    by (simp add: strftime_HM_def h m)
  with h m show ?thesis by blast
qed

lemma chat_msg_not_presence [simp]: "\<not> is_presence (chat_msg username content time)"
  by (simp add: chat_msg_def py_get_def)

lemma tick_simps [simp]:
  "active_clients (tick st) = active_clients st"
  "broken (tick st) = broken st"
  "trace (tick st) = trace st"
  by (simp_all add: tick_def)

text \<open>
  C1, as the code has it.  A line that decodes to a dict of type \<open>message\<close> holding a
  \<open>content\<close> (of any value, the empty string included) is answered by one broadcast: the
  record is \<open>{type: message, sender, content, time}\<close> with the listener's own username
  as the sender, whatever else the dict holds, and a time of the form \<open>HH:MM\<close> read from
  the server's clock.  The attempts to write that record are, in order, exactly one for
  each entry of the registry at that moment (a delivery where the socket works), the
  sender's own entry included; the loop then goes on with the rest of the buffer.
\<close>

theorem chat_message_reaches_every_sink:
  assumes "split_line buffer = Some (line, rest)" and "py_strip line \<noteq> []"
    and "loads line = Some (JObj d)" and "py_get d ''type'' = JStr ''message''"
    and "map_of d ''content'' = Some content"
  shows "process_buffer loads username buffer st =
           process_buffer loads username rest
             (broadcast_message (chat_msg username content (strftime_now st)) (tick st)) \<and>
         trace (broadcast_message (chat_msg username content (strftime_now st)) (tick st)) =
           trace st @
           emitted (chat_msg username content (strftime_now st)) (active_clients st) (tick st) \<and>
         filter (about (chat_msg username content (strftime_now st)))
           (emitted (chat_msg username content (strftime_now st)) (active_clients st) (tick st)) =
           map (attempt (broken st) (chat_msg username content (strftime_now st)))
             (active_clients st) \<and>
         chat_msg username content (strftime_now st) =
           JObj [(''type'', JStr ''message''), (''sender'', username), (''content'', content),
                 (''time'', JStr (strftime_now st))] \<and>
         (\<exists>a b c d. strftime_now st = [a, b, CHR '':'', c, d] \<and>
                    {a, b, c, d} \<subseteq> set ''0123456789'')"
proof (intro conjI)
  show "process_buffer loads username buffer st =
           process_buffer loads username rest
             (broadcast_message (chat_msg username content (strftime_now st)) (tick st))"
    using assms by (simp add: process_buffer_line handle_packet_def)
  show "trace (broadcast_message (chat_msg username content (strftime_now st)) (tick st)) =
           trace st @
           emitted (chat_msg username content (strftime_now st)) (active_clients st) (tick st)"
    using trace_send_loop [of _ "active_clients (tick st)" "tick st"]
    by (simp add: broadcast_message_def)
  show "filter (about (chat_msg username content (strftime_now st)))
           (emitted (chat_msg username content (strftime_now st)) (active_clients st) (tick st)) =
           map (attempt (broken st) (chat_msg username content (strftime_now st)))
             (active_clients st)"
    using exact_attempts [of "chat_msg username content (strftime_now st)" "active_clients st" "tick st"]
    by simp
  show "chat_msg username content (strftime_now st) =
           JObj [(''type'', JStr ''message''), (''sender'', username), (''content'', content),
                 (''time'', JStr (strftime_now st))]"
    by (simp add: chat_msg_def)
  show "\<exists>a b c d. strftime_now st = [a, b, CHR '':'', c, d] \<and>
                    {a, b, c, d} \<subseteq> set ''0123456789''"
    unfolding strftime_now_def by (rule strftime_HM_shape)
qed

text \<open>Evaluating the example lines.\<close>

lemma sample_lines:
  "split_line (chat_hi_text @ [CHR 0x0A]) = Some (chat_hi_text, [])"
  "split_line (chat_empty_text @ [CHR 0x0A]) = Some (chat_empty_text, [])"
  "split_line (chat_no_content_text @ [CHR 0x0A]) = Some (chat_no_content_text, [])"
  "split_line (array_text @ [CHR 0x0A]) = Some (array_text, [])"
  "split_line [] = None"
  by (simp_all add: split_line_def chat_hi_text_def chat_empty_text_def
      chat_no_content_text_def array_text_def)

lemma sample_lines_not_blank:
  "py_strip chat_hi_text \<noteq> []"
  "py_strip chat_empty_text \<noteq> []"
  "py_strip chat_no_content_text \<noteq> []"
  "py_strip array_text \<noteq> []"
  by (simp_all add: py_strip_def isspace_def chat_hi_text_def chat_empty_text_def
      chat_no_content_text_def array_text_def)

lemma sample_loads_chat:
  "sample_loads chat_hi_text = Some (JObj [(''type'', JStr ''message''), (''content'', JStr ''hi'')])"
  "sample_loads chat_empty_text = Some (JObj [(''type'', JStr ''message''), (''content'', JStr [])])"
  "sample_loads chat_no_content_text = Some (JObj [(''type'', JStr ''message'')])"
  "sample_loads array_text = Some (JArr [])"
  by (simp_all add: sample_loads_def login_ok_text_def login_bad_text_def register_new_text_def
      register_taken_text_def chat_hi_text_def chat_empty_text_def chat_no_content_text_def
      array_text_def)

lemma room_fields:
  "users (room clients bk) = [(''yosif'', ''1010''), (''mohamed'', ''1010'')]"
  "active_clients (room clients bk) = clients"
  "broken (room clients bk) = bk"
  "trace (room clients bk) = []"
  "reads (room clients bk) = 0"
  "clock (room clients bk) = (\<lambda>n. 0)"
  by (simp_all add: room_def initial_server_def add_default_users_def)

lemma midnight: "strftime_HM 0 = ''00:00''"
  by (simp add: strftime_HM_def two_digits_def)

lemmas sample_steps =
  process_buffer_line [OF sample_lines(1)] process_buffer_line [OF sample_lines(2)]
  process_buffer_line [OF sample_lines(3)] process_buffer_line [OF sample_lines(4)]
  process_buffer_no_line [OF sample_lines(5)]

text \<open>
  C1 as stated fails in its last sentence: the message with the empty content is
  broadcast to both clients.
\<close>

theorem empty_content_counterexample:
  "fst (listen_for_messages sample_loads 1 (JStr ''yosif'') [Data (chat_empty_text @ [CHR 0x0A])]
          (room [(JStr ''yosif'', 1), (JStr ''mohamed'', 2)] [])) = Listening [] \<and>
   trace (snd (listen_for_messages sample_loads 1 (JStr ''yosif'')
          [Data (chat_empty_text @ [CHR 0x0A])]
          (room [(JStr ''yosif'', 1), (JStr ''mohamed'', 2)] []))) =
     [Sent 1 (chat_msg (JStr ''yosif'') (JStr []) ''00:00''),
      Sent 2 (chat_msg (JStr ''yosif'') (JStr []) ''00:00'')]"
  by (simp add: listen_for_messages_def sample_steps
      sample_lines_not_blank sample_loads_chat handle_packet_def py_get_def strftime_now_def
      tick_def room_fields midnight broadcast_message_def log_def)

text \<open>The amended statement on the message \<open>hi\<close> of \<open>yosif\<close>.\<close>

theorem chat_message_reaches_every_sink_witness:
  "trace (snd (snd (process_buffer sample_loads (JStr ''yosif'') (chat_hi_text @ [CHR 0x0A])
          (room [(JStr ''yosif'', 1), (JStr ''mohamed'', 2)] [])))) =
     [Sent 1 (chat_msg (JStr ''yosif'') (JStr ''hi'') ''00:00''),
      Sent 2 (chat_msg (JStr ''yosif'') (JStr ''hi'') ''00:00'')] \<and>
   filter (about (chat_msg (JStr ''yosif'') (JStr ''hi'') ''00:00''))
     (emitted (chat_msg (JStr ''yosif'') (JStr ''hi'') ''00:00'')
        [(JStr ''yosif'', 1), (JStr ''mohamed'', 2)]
        (tick (room [(JStr ''yosif'', 1), (JStr ''mohamed'', 2)] []))) =
     [Sent 1 (chat_msg (JStr ''yosif'') (JStr ''hi'') ''00:00''),
      Sent 2 (chat_msg (JStr ''yosif'') (JStr ''hi'') ''00:00'')]"
proof -
  have ty: "py_get [(''type'', JStr ''message''), (''content'', JStr ''hi'')] ''type'' = JStr ''message''"
    and co: "map_of [(''type'', JStr ''message''), (''content'', JStr ''hi'')] ''content'' = Some (JStr ''hi'')"
    by (simp_all add: py_get_def)
  have now: "strftime_now (room [(JStr ''yosif'', 1), (JStr ''mohamed'', 2)] []) = ''00:00''"
    by (simp add: strftime_now_def room_fields midnight)
  note run = chat_message_reaches_every_sink
    [where loads = sample_loads and username = "JStr ''yosif''"
       and st = "room [(JStr ''yosif'', 1), (JStr ''mohamed'', 2)] []",
     OF sample_lines(1) sample_lines_not_blank(1) sample_loads_chat(1) ty co,
     unfolded now room_fields]
  from run have step: "process_buffer sample_loads (JStr ''yosif'') (chat_hi_text @ [CHR 0x0A])
          (room [(JStr ''yosif'', 1), (JStr ''mohamed'', 2)] []) =
        process_buffer sample_loads (JStr ''yosif'') []
          (broadcast_message (chat_msg (JStr ''yosif'') (JStr ''hi'') ''00:00'')
             (tick (room [(JStr ''yosif'', 1), (JStr ''mohamed'', 2)] [])))"
    and sends: "filter (about (chat_msg (JStr ''yosif'') (JStr ''hi'') ''00:00''))
          (emitted (chat_msg (JStr ''yosif'') (JStr ''hi'') ''00:00'')
             [(JStr ''yosif'', 1), (JStr ''mohamed'', 2)]
             (tick (room [(JStr ''yosif'', 1), (JStr ''mohamed'', 2)] []))) =
        map (attempt [] (chat_msg (JStr ''yosif'') (JStr ''hi'') ''00:00''))
          [(JStr ''yosif'', 1), (JStr ''mohamed'', 2)]"
    by blast+
  have out: "trace (broadcast_message (chat_msg (JStr ''yosif'') (JStr ''hi'') ''00:00'')
          (tick (room [(JStr ''yosif'', 1), (JStr ''mohamed'', 2)] []))) =
        [Sent 1 (chat_msg (JStr ''yosif'') (JStr ''hi'') ''00:00''),
         Sent 2 (chat_msg (JStr ''yosif'') (JStr ''hi'') ''00:00'')]"
    by (simp add: broadcast_message_def room_fields log_def)
  from out show ?thesis
    unfolding step sends by (simp add: sample_steps attempt_def)
qed

text \<open>
  The payloads that are not dropped: a decoded line that is not a dict, or a dict of type
  \<open>message\<close> without the key \<open>content\<close>, raises in \<open>handle_packet\<close>; the listener then
  deregisters its user and stops.
\<close>

lemma raising_payloads:
  "(\<forall>d. pkt \<noteq> JObj d) \<or>
   (\<exists>d. pkt = JObj d \<and> py_get d ''type'' = JStr ''message'' \<and> map_of d ''content'' = None)
   \<Longrightarrow> \<exists>e. handle_packet username pkt st = (Some e, st)"
  by (cases pkt) (auto simp: handle_packet_def)

lemma raising_line_stops_listener:
  assumes "split_line (buffer @ data) = Some (line, rest)" and "data \<noteq> []"
    and "py_strip line \<noteq> []" and "loads line = Some pkt"
    and "handle_packet username pkt st = (Some e, st)"
  shows "listen_loop loads username buffer (Data data # rs) st =
           (Stopped, remove_client username st)"
  using assms by (simp add: process_buffer_line)

text \<open>
  C3.  Two lines that are not well-formed chat messages, \<^verbatim>\<open>{"type": "message"}\<close> and
  \<^verbatim>\<open>[]\<close>, sent by \<open>yosif\<close>: the listener stops, \<open>yosif\<close> is dropped from the registry
  and \<open>mohamed\<close> is sent a user list.
\<close>

theorem malformed_payload_ends_session:
  "listen_for_messages sample_loads 1 (JStr ''yosif'') [Data (chat_no_content_text @ [CHR 0x0A])]
     (room [(JStr ''yosif'', 1), (JStr ''mohamed'', 2)] []) =
     (Stopped,
      (room [(JStr ''mohamed'', 2)] [])
        \<lparr>trace := [Sent 2 (JObj [(''type'', JStr ''user_list''),
                                 (''content'', JArr [JStr ''mohamed''])])]\<rparr>) \<and>
   listen_for_messages sample_loads 1 (JStr ''yosif'') [Data (array_text @ [CHR 0x0A])]
     (room [(JStr ''yosif'', 1), (JStr ''mohamed'', 2)] []) =
     (Stopped,
      (room [(JStr ''mohamed'', 2)] [])
        \<lparr>trace := [Sent 2 (JObj [(''type'', JStr ''user_list''),
                                 (''content'', JArr [JStr ''mohamed''])])]\<rparr>)"
  by (simp add: listen_for_messages_def sample_steps
      sample_lines_not_blank sample_loads_chat handle_packet_def py_get_def
      remove_client_def broadcast_user_list_def deregister_def user_list_msg_def log_def
      room_def initial_server_def add_default_users_def)


end
